theory Spec2Isabelle
  imports Main "HOL-Library.Sublist"
begin

section \<open>Format descriptors as the extractor reports them\<close>

text \<open>
  A format object of the metadata JSON. A field that may be missing or null is an option;
  JSON numbers are integers. \<open>acodec\<close> and \<open>vcodec\<close> are compared with \<open>!==\<close>, so a
  missing codec is kept apart from the string \<open>none\<close>.
\<close>

record format =
  format_id :: string
  ext :: string
  height :: "int option"
  acodec :: "string option"
  vcodec :: "string option"
  filesize :: "int option"
  filesize_approx :: "int option"
  abr :: "int option"
  bitrate :: "int option"

text \<open>Max Telegram upload size: 200MB. Limit of playlist videos.\<close>

definition MAX_SIZE :: int where
  "MAX_SIZE = 200 * 1024 * 1024"

definition MAX_PLAYLIST_VIDEOS :: nat where
  "MAX_PLAYLIST_VIDEOS = 10"

subsection \<open>JavaScript's \<open>||\<close> on numbers that may be missing\<close>

text \<open>
  \<open>a || b\<close> yields \<open>a\<close> when \<open>a\<close> is truthy and \<open>b\<close> otherwise; a missing value, null and
  the number 0 are falsy.
\<close>

fun js_or :: "int option \<Rightarrow> int option \<Rightarrow> int option" where
  "js_or None b = b"
| "js_or (Some n) b = (if n = 0 then b else Some n)"

fun js_or0 :: "int option \<Rightarrow> int" where
  "js_or0 None = 0"
| "js_or0 (Some n) = n"

text \<open>\<open>(f.filesize || f.filesize_approx) || 0\<close>\<close>

definition sizeOf :: "format \<Rightarrow> int" where
  "sizeOf f = js_or0 (js_or (filesize f) (filesize_approx f))"

text \<open>\<open>f.abr || f.bitrate || 0\<close>\<close>

definition rateOf :: "format \<Rightarrow> int" where
  "rateOf f = js_or0 (js_or (abr f) (bitrate f))"

text \<open>The stream tests of the source: \<open>f.acodec !== 'none'\<close> and \<open>f.vcodec !== 'none'\<close>.\<close>

definition hasAudio :: "format \<Rightarrow> bool" where
  "hasAudio f = (acodec f \<noteq> Some ''none'')"

definition hasVideo :: "format \<Rightarrow> bool" where
  "hasVideo f = (vcodec f \<noteq> Some ''none'')"

subsection \<open>The three predicates of the selection\<close>

text \<open>The arrow function given to \<open>find\<close> for the combined 720p format.\<close>

definition combinedPred :: "format \<Rightarrow> bool" where
  "combinedPred f =
     ((ext f = ''mp4'' \<or> ext f = ''webm'') \<and>
      height f = Some 720 \<and>
      hasAudio f \<and>
      hasVideo f \<and>
      sizeOf f \<le> MAX_SIZE)"

text \<open>The arrow function given to \<open>find\<close> for the video-only 720p format.\<close>

definition videoOnlyPred :: "format \<Rightarrow> bool" where
  "videoOnlyPred f =
     ((ext f = ''mp4'' \<or> ext f = ''webm'') \<and>
      height f = Some 720 \<and>
      acodec f = Some ''none'' \<and>
      hasVideo f \<and>
      sizeOf f \<le> MAX_SIZE)"

text \<open>The arrow function given to \<open>filter\<close> for the audio-only candidates.\<close>

definition audioPred :: "format \<Rightarrow> bool" where
  "audioPred f =
     (hasAudio f \<and>
      vcodec f = Some ''none'' \<and>
      (ext f = ''mp4'' \<or> ext f = ''webm'' \<or> ext f = ''m4a'') \<and>
      sizeOf f \<le> MAX_SIZE)"

subsection \<open>Array.prototype.sort with a comparator\<close>

text \<open>
  The sort is stable: \<open>a\<close> stays before \<open>b\<close> unless the comparator is positive on
  \<open>(a, b)\<close>. For a comparator that is a difference of keys the result is the stable
  insertion sort below.
\<close>

fun insort_cmp :: "('a \<Rightarrow> 'a \<Rightarrow> int) \<Rightarrow> 'a \<Rightarrow> 'a list \<Rightarrow> 'a list" where
  "insort_cmp cmp x [] = [x]"
| "insort_cmp cmp x (y # ys) =
     (if cmp x y \<le> 0 then x # y # ys else y # insort_cmp cmp x ys)"

definition js_sort :: "('a \<Rightarrow> 'a \<Rightarrow> int) \<Rightarrow> 'a list \<Rightarrow> 'a list" where
  "js_sort cmp xs = foldr (insort_cmp cmp) xs []"

text \<open>\<open>(a, b) => (b.abr || b.bitrate || 0) - (a.abr || a.bitrate || 0)\<close>\<close>

definition byRateDesc :: "format \<Rightarrow> format \<Rightarrow> int" where
  "byRateDesc a b = rateOf b - rateOf a"

definition audioCandidates :: "format list \<Rightarrow> format list" where
  "audioCandidates fs = js_sort byRateDesc (filter audioPred fs)"

subsection \<open>The selection\<close>

datatype reason = NoVideoOnly | NoAudioOnly

datatype SelectionResult =
    Combined format
  | SplitPair format format
  | NoneFound reason

text \<open>
  The decision that \<open>handleSingleVideo\<close> takes between its first \<open>find\<close> and
  \<open>audioCandidates[0]\<close>: target height 720 and cap \<open>MAX_SIZE\<close> are constants of the
  source.
\<close>

definition select :: "format list \<Rightarrow> SelectionResult" where
  "select fs =
     (case find combinedPred fs of
        Some combined \<Rightarrow> Combined combined
      | None \<Rightarrow>
         (case find videoOnlyPred fs of
            None \<Rightarrow> NoneFound NoVideoOnly
          | Some videoOnly \<Rightarrow>
             (if length (audioCandidates fs) = 0 then NoneFound NoAudioOnly
              else SplitPair videoOnly (audioCandidates fs ! 0))))"

section \<open>The world the handlers act on\<close>

text \<open>
  Every notification text of the source is one constructor; the texts are pairwise
  different whatever their parameters are.
\<close>

datatype message =
    MsgProcessing string \<comment> \<open>Processing video: (title)\<close>
  | MsgDownloadingCombined string \<comment> \<open>Downloading combined 720p format (id)...\<close>
  | MsgOversizeDownloaded \<comment> \<open>Downloaded video exceeds 200MB, cannot send via Telegram.\<close>
  | MsgStatError \<comment> \<open>Error reading downloaded file.\<close>
  | MsgNoCombined \<comment> \<open>No combined 720p under size limit, downloading video-only + audio ...\<close>
  | MsgNoVideoOnly \<comment> \<open>No suitable video-only 720p format under size limit found.\<close>
  | MsgNoAudioOnly \<comment> \<open>No suitable audio-only format under size limit found.\<close>
  | MsgDownloadingVideoOnly string \<comment> \<open>Downloading video-only (ID: id)...\<close>
  | MsgDownloadingAudioOnly string \<comment> \<open>Downloading audio-only (ID: id)...\<close>
  | MsgMerging \<comment> \<open>Merging video and audio...\<close>
  | MsgOversizeMerged \<comment> \<open>Merged video exceeds 200MB, cannot send via Telegram.\<close>
  | MsgDownloadOrMergeError \<comment> \<open>Error during download or merge.\<close>
  | MsgPlaylistStart string nat \<comment> \<open>Downloading playlist: (title) (n videos)...\<close>
  | MsgNoVideosDownloaded \<comment> \<open>No videos could be downloaded under 200MB or within limit ...\<close>
  | MsgOversizeZip \<comment> \<open>Zipped file exceeds 200MB. Cannot send via Telegram.\<close>
  | MsgZipFailed \<comment> \<open>Failed to create or send zipped playlist.\<close>

text \<open>
  Every call that leaves the process is recorded, with its outcome where the control flow
  depends on it: the transport (\<open>bot.sendMessage\<close>, \<open>sendVideo\<close>, \<open>sendDocument\<close>),
  the extractor (metadata and download), the remux tool, the archive writer and the file
  system (\<open>stat\<close>, \<open>unlink\<close>, \<open>rmdir\<close>).
\<close>

datatype event =
    SendMessage int message
  | SendVideo int string
  | SendDocument int string
  | YtdlInfo string bool
  | YtdlDownload string string string bool
  | FfmpegMerge string string string bool
  | ZipFiles "(string \<times> string) list" string bool
  | Stat string "int option"
  | Unlink string
  | Rmdir string

text \<open>The file system maps a path to the size of the file there.\<close>

type_synonym fs = "string \<Rightarrow> int option"

record world =
  files :: fs
  trace :: "event list"

record entry =
  entry_url :: "string option"
  entry_id :: "string option"

record info =
  title :: "string option"
  formats :: "format list"
  entries :: "entry list"

text \<open>
  The collaborators outside the repository. A download, a merge and an archive run may
  resolve or reject, and either way leave the file system as they please; the metadata
  call resolves with a catalog or rejects. The transport is a collaborator that accepts
  every call, and \<open>mkdtemp\<close> names the directory it has created. Console output is
  not part of the model.
\<close>

record env =
  sanitize :: "string \<Rightarrow> string"
  dirname :: string
  tmpdir :: string
  mkdtemp :: "string \<Rightarrow> string"
  ytdl_info :: "string \<Rightarrow> info option"
  ytdl_download :: "string \<Rightarrow> string \<Rightarrow> string \<Rightarrow> fs \<Rightarrow> bool \<times> fs"
  ffmpeg :: "string \<Rightarrow> string \<Rightarrow> string \<Rightarrow> fs \<Rightarrow> bool \<times> fs"
  archiver :: "(string \<times> string) list \<Rightarrow> string \<Rightarrow> fs \<Rightarrow> bool \<times> fs"

datatype completion = Returned | Threw

subsection \<open>Paths and titles\<close>

text \<open>
  \<open>path.resolve(__dirname, name)\<close> and \<open>path.join(dir, name)\<close> for a name without
  separators or dot segments; \<open>path.basename\<close> is the part after the last separator.
\<close>

definition path_resolve :: "string \<Rightarrow> string \<Rightarrow> string" where
  "path_resolve dir name = dir @ ''/'' @ name"

definition path_join :: "string \<Rightarrow> string \<Rightarrow> string" where
  "path_join dir name = dir @ ''/'' @ name"

definition basename :: "string \<Rightarrow> string" where
  "basename p = rev (takeWhile (\<lambda>c. c \<noteq> CHR ''/'') (rev p))"

text \<open>\<open>sanitize(info.title || dflt).slice(0, 100)\<close>: a missing or empty title is falsy.\<close>

definition titleOr :: "string option \<Rightarrow> string \<Rightarrow> string" where
  "titleOr t dflt = (case t of None \<Rightarrow> dflt | Some s \<Rightarrow> if s = [] then dflt else s)"

definition safeTitleOf :: "env \<Rightarrow> string option \<Rightarrow> string \<Rightarrow> string" where
  "safeTitleOf E t dflt = take 100 (sanitize E (titleOr t dflt))"

subsection \<open>Primitive effects\<close>

definition emit :: "event \<Rightarrow> world \<Rightarrow> world" where
  "emit e w = w\<lparr>trace := trace w @ [e]\<rparr>"

definition sendMessage :: "int \<Rightarrow> message \<Rightarrow> world \<Rightarrow> world" where
  "sendMessage chatId m w = emit (SendMessage chatId m) w"

definition sendVideo :: "int \<Rightarrow> string \<Rightarrow> world \<Rightarrow> world" where
  "sendVideo chatId p w = emit (SendVideo chatId p) w"

definition sendDocument :: "int \<Rightarrow> string \<Rightarrow> world \<Rightarrow> world" where
  "sendDocument chatId p w = emit (SendDocument chatId p) w"

text \<open>\<open>fs.stat\<close> rejects when nothing is at the path.\<close>

definition fs_stat :: "string \<Rightarrow> world \<Rightarrow> int option \<times> world" where
  "fs_stat p w = (files w p, emit (Stat p (files w p)) w)"

definition youtubedl_download :: "env \<Rightarrow> string \<Rightarrow> string \<Rightarrow> string \<Rightarrow> world \<Rightarrow> bool \<times> world" where
  "youtubedl_download E url fid output w =
     (case ytdl_download E url fid output (files w) of
        (ok, fs') \<Rightarrow> (ok, emit (YtdlDownload url fid output ok) (w\<lparr>files := fs'\<rparr>)))"

definition youtubedl_info :: "env \<Rightarrow> string \<Rightarrow> world \<Rightarrow> info option \<times> world" where
  "youtubedl_info E url w = (ytdl_info E url, emit (YtdlInfo url (ytdl_info E url \<noteq> None)) w)"

text \<open>\<open>ffmpegMerge\<close>: the promise rejects when \<open>exec\<close> reports an error.\<close>

definition ffmpegMerge :: "env \<Rightarrow> string \<Rightarrow> string \<Rightarrow> string \<Rightarrow> world \<Rightarrow> bool \<times> world" where
  "ffmpegMerge E videoPath audioPath outputPath w =
     (case ffmpeg E videoPath audioPath outputPath (files w) of
        (ok, fs') \<Rightarrow> (ok, emit (FfmpegMerge videoPath audioPath outputPath ok) (w\<lparr>files := fs'\<rparr>)))"

definition zipFiles :: "env \<Rightarrow> (string \<times> string) list \<Rightarrow> string \<Rightarrow> world \<Rightarrow> bool \<times> world" where
  "zipFiles E fls zipPath w =
     (case archiver E fls zipPath (files w) of
        (ok, fs') \<Rightarrow> (ok, emit (ZipFiles fls zipPath ok) (w\<lparr>files := fs'\<rparr>)))"

text \<open>
  \<open>cleanupFile\<close>: \<open>fs.unlink\<close> removes the file; on a missing path it rejects with
  ENOENT, which the \<open>catch\<close> swallows. Nothing is thrown to the caller.
\<close>

definition cleanupFile :: "string \<Rightarrow> world \<Rightarrow> world" where
  "cleanupFile filePath w = emit (Unlink filePath) (w\<lparr>files := (files w)(filePath := None)\<rparr>)"

text \<open>\<open>fs.rmdir(tempDir, { recursive: true })\<close> inside its own \<open>try\<close>.\<close>

definition rmdirRecursive :: "string \<Rightarrow> world \<Rightarrow> world" where
  "rmdirRecursive dir w =
     emit (Rmdir dir)
       (w\<lparr>files := (\<lambda>p. if prefix (dir @ ''/'') p then None else files w p)\<rparr>)"

fun cleanupFiles :: "(string \<times> string) list \<Rightarrow> world \<Rightarrow> world" where
  "cleanupFiles [] w = w"
| "cleanupFiles (f # fls) w = cleanupFiles fls (cleanupFile (fst f) w)"

definition cleanupTemp :: "(string \<times> string) list \<Rightarrow> string \<Rightarrow> string \<Rightarrow> world \<Rightarrow> world" where
  "cleanupTemp fls tempDir zipPath w =
     cleanupFile zipPath (rmdirRecursive tempDir (cleanupFiles fls w))"

section \<open>handleSingleVideo\<close>

text \<open>
  The branch taken when a combined format is found. A rejected download is not caught
  here: it leaves the handler at once. The size check has its own \<open>try\<close>, and the
  cleanup follows it; \<open>cleanupFile\<close> is started there without \<open>await\<close>, and its effect
  is counted to the run.
\<close>

definition combinedPath :: "env \<Rightarrow> string \<Rightarrow> format \<Rightarrow> string" where
  "combinedPath E safeTitle combined =
     path_resolve (dirname E) (safeTitle @ ''_'' @ format_id combined @ ''.'' @ ext combined)"

definition sendCombined :: "env \<Rightarrow> int \<Rightarrow> string \<Rightarrow> string \<Rightarrow> format \<Rightarrow> world \<Rightarrow> completion \<times> world" where
  "sendCombined E chatId url safeTitle combined w =
     (let outputPath = combinedPath E safeTitle combined;
          w1 = sendMessage chatId (MsgDownloadingCombined (format_id combined)) w
      in case youtubedl_download E url (format_id combined) outputPath w1 of
           (False, w2) \<Rightarrow> (Threw, w2)
         | (True, w2) \<Rightarrow>
             (case fs_stat outputPath w2 of
                (None, w3) \<Rightarrow>
                  (Returned, cleanupFile outputPath (sendMessage chatId MsgStatError w3))
              | (Some sz, w3) \<Rightarrow>
                  (if sz > MAX_SIZE
                   then (Returned, cleanupFile outputPath (sendMessage chatId MsgOversizeDownloaded w3))
                   else (Returned, cleanupFile outputPath (sendVideo chatId outputPath w3)))))"

text \<open>The paths of the fallback branch.\<close>

definition videoPartPath :: "env \<Rightarrow> string \<Rightarrow> format \<Rightarrow> string" where
  "videoPartPath E safeTitle videoOnly =
     path_resolve (dirname E) (safeTitle @ ''_video.'' @ ext videoOnly)"

definition audioPartPath :: "env \<Rightarrow> string \<Rightarrow> format \<Rightarrow> string" where
  "audioPartPath E safeTitle bestAudio =
     path_resolve (dirname E) (safeTitle @ ''_audio.'' @ ext bestAudio)"

definition mergedPath :: "env \<Rightarrow> string \<Rightarrow> string" where
  "mergedPath E safeTitle = path_resolve (dirname E) (safeTitle @ ''_720p_merged.mp4'')"

text \<open>
  The body of the \<open>try\<close>: the result tells whether it ran to its end (\<open>True\<close>) or
  threw, in which case the \<open>catch\<close> notifies.
\<close>

definition mergeTry :: "env \<Rightarrow> int \<Rightarrow> string \<Rightarrow> format \<Rightarrow> format \<Rightarrow> string \<Rightarrow> string \<Rightarrow> string \<Rightarrow> world \<Rightarrow> bool \<times> world" where
  "mergeTry E chatId url videoOnly bestAudio videoPath audioPath outputPath w =
     (let w1 = sendMessage chatId (MsgDownloadingVideoOnly (format_id videoOnly)) w
      in case youtubedl_download E url (format_id videoOnly) videoPath w1 of
           (False, w2) \<Rightarrow> (False, w2)
         | (True, w2) \<Rightarrow>
            (let w3 = sendMessage chatId (MsgDownloadingAudioOnly (format_id bestAudio)) w2
             in case youtubedl_download E url (format_id bestAudio) audioPath w3 of
                  (False, w4) \<Rightarrow> (False, w4)
                | (True, w4) \<Rightarrow>
                   (let w5 = sendMessage chatId MsgMerging w4
                    in case ffmpegMerge E videoPath audioPath outputPath w5 of
                         (False, w6) \<Rightarrow> (False, w6)
                       | (True, w6) \<Rightarrow>
                          (case fs_stat outputPath w6 of
                             (None, w7) \<Rightarrow> (False, w7)
                           | (Some sz, w7) \<Rightarrow>
                              (if sz > MAX_SIZE
                               then (True, sendMessage chatId MsgOversizeMerged w7)
                               else (True, sendVideo chatId outputPath w7))))))"

definition sendMerged :: "env \<Rightarrow> int \<Rightarrow> string \<Rightarrow> string \<Rightarrow> format \<Rightarrow> format \<Rightarrow> world \<Rightarrow> completion \<times> world" where
  "sendMerged E chatId url safeTitle videoOnly bestAudio w =
     (let videoPath = videoPartPath E safeTitle videoOnly;
          audioPath = audioPartPath E safeTitle bestAudio;
          outputPath = mergedPath E safeTitle;
          w1 = (case mergeTry E chatId url videoOnly bestAudio videoPath audioPath outputPath w of
                  (True, w') \<Rightarrow> w'
                | (False, w') \<Rightarrow> sendMessage chatId MsgDownloadOrMergeError w')
      in (Returned, cleanupFile outputPath (cleanupFile audioPath (cleanupFile videoPath w1))))"

definition handleSingleVideo :: "env \<Rightarrow> int \<Rightarrow> info \<Rightarrow> string \<Rightarrow> world \<Rightarrow> completion \<times> world" where
  "handleSingleVideo E chatId info url w =
     (let safeTitle = safeTitleOf E (title info) ''video'';
          w1 = sendMessage chatId (MsgProcessing safeTitle) w
      in case find combinedPred (formats info) of
           Some combined \<Rightarrow> sendCombined E chatId url safeTitle combined w1
         | None \<Rightarrow>
            (let w2 = sendMessage chatId MsgNoCombined w1
             in case find videoOnlyPred (formats info) of
                  None \<Rightarrow> (Returned, sendMessage chatId MsgNoVideoOnly w2)
                | Some videoOnly \<Rightarrow>
                   (if length (audioCandidates (formats info)) = 0
                    then (Returned, sendMessage chatId MsgNoAudioOnly w2)
                    else sendMerged E chatId url safeTitle videoOnly
                           (audioCandidates (formats info) ! 0) w2)))"

section \<open>handlePlaylist\<close>

text \<open>\<open>video.url\<close> can be an id string; the full URL is formed.\<close>

definition showOpt :: "string option \<Rightarrow> string" where
  "showOpt s = (case s of None \<Rightarrow> ''undefined'' | Some t \<Rightarrow> t)"

definition videoUrl :: "entry \<Rightarrow> string" where
  "videoUrl video =
     (let watch = ''https://www.youtube.com/watch?v='' @
                  (case entry_id video of
                     None \<Rightarrow> showOpt (entry_url video)
                   | Some i \<Rightarrow> if i = [] then showOpt (entry_url video) else i)
      in case entry_url video of
           None \<Rightarrow> watch
         | Some u \<Rightarrow> if u \<noteq> [] \<and> prefix ''http'' u then u else watch)"

text \<open>
  One turn of the loop. Whatever is thrown inside is caught by the turn's own \<open>catch\<close>,
  and \<open>continue\<close> leaves the turn too: in both cases nothing is pushed.
\<close>

definition processVideo :: "env \<Rightarrow> string \<Rightarrow> entry \<Rightarrow> (string \<times> string) list \<times> world \<Rightarrow> (string \<times> string) list \<times> world" where
  "processVideo E tempDir video st =
     (case st of (downloadedFiles, w) \<Rightarrow>
      (case youtubedl_info E (videoUrl video) w of
         (None, w1) \<Rightarrow> (downloadedFiles, w1)
       | (Some videoInfo, w1) \<Rightarrow>
          (let vTitle = safeTitleOf E (title videoInfo) ''video''
           in case find combinedPred (formats videoInfo) of
                Some combined \<Rightarrow>
                  (let outputPath = path_join tempDir
                         (vTitle @ ''_'' @ format_id combined @ ''.'' @ ext combined)
                   in case youtubedl_download E (videoUrl video) (format_id combined) outputPath w1 of
                        (False, w2) \<Rightarrow> (downloadedFiles, w2)
                      | (True, w2) \<Rightarrow>
                          (downloadedFiles @ [(outputPath, basename outputPath)], w2))
              | None \<Rightarrow>
                 (case find videoOnlyPred (formats videoInfo) of
                    None \<Rightarrow> (downloadedFiles, w1)
                  | Some videoOnly \<Rightarrow>
                     (if length (audioCandidates (formats videoInfo)) = 0
                      then (downloadedFiles, w1)
                      else
                       (let bestAudio = audioCandidates (formats videoInfo) ! 0;
                            videoPath = path_join tempDir (vTitle @ ''_video.'' @ ext videoOnly);
                            audioPath = path_join tempDir (vTitle @ ''_audio.'' @ ext bestAudio);
                            outputPath = path_join tempDir (vTitle @ ''_720p_merged.mp4'')
                        in case youtubedl_download E (videoUrl video) (format_id videoOnly) videoPath w1 of
                             (False, w2) \<Rightarrow> (downloadedFiles, w2)
                           | (True, w2) \<Rightarrow>
                              (case youtubedl_download E (videoUrl video) (format_id bestAudio) audioPath w2 of
                                 (False, w3) \<Rightarrow> (downloadedFiles, w3)
                               | (True, w3) \<Rightarrow>
                                  (case ffmpegMerge E videoPath audioPath outputPath w3 of
                                     (False, w4) \<Rightarrow> (downloadedFiles, w4)
                                   | (True, w4) \<Rightarrow>
                                      (downloadedFiles @ [(outputPath, basename outputPath)],
                                       cleanupFile audioPath (cleanupFile videoPath w4))))))))))"

fun processEntries :: "env \<Rightarrow> string \<Rightarrow> entry list \<Rightarrow> (string \<times> string) list \<times> world \<Rightarrow> (string \<times> string) list \<times> world" where
  "processEntries E tempDir [] st = st"
| "processEntries E tempDir (video # rest) st =
     processEntries E tempDir rest (processVideo E tempDir video st)"

text \<open>The \<open>try\<close> around archive, size check and delivery, with its \<open>catch\<close>.\<close>

definition sendZip :: "env \<Rightarrow> int \<Rightarrow> (string \<times> string) list \<Rightarrow> string \<Rightarrow> world \<Rightarrow> world" where
  "sendZip E chatId downloadedFiles zipPath w =
     (case zipFiles E downloadedFiles zipPath w of
        (False, w1) \<Rightarrow> sendMessage chatId MsgZipFailed w1
      | (True, w1) \<Rightarrow>
         (case fs_stat zipPath w1 of
            (None, w2) \<Rightarrow> sendMessage chatId MsgZipFailed w2
          | (Some sz, w2) \<Rightarrow>
             (if sz > MAX_SIZE then sendMessage chatId MsgOversizeZip w2
              else sendDocument chatId zipPath w2)))"

definition handlePlaylist :: "env \<Rightarrow> int \<Rightarrow> info \<Rightarrow> world \<Rightarrow> world" where
  "handlePlaylist E chatId info w =
     (let safeTitle = safeTitleOf E (title info) ''playlist'';
          tempDir = mkdtemp E (path_join (tmpdir E) ''ytplaylist-'');
          zipPath = path_resolve (dirname E) (safeTitle @ ''.zip'');
          w1 = sendMessage chatId (MsgPlaylistStart safeTitle (length (entries info))) w;
          ents = take MAX_PLAYLIST_VIDEOS (entries info)
      in case processEntries E tempDir ents ([], w1) of
           (downloadedFiles, w2) \<Rightarrow>
             (if length downloadedFiles = 0
              then sendMessage chatId MsgNoVideosDownloaded
                     (cleanupTemp downloadedFiles tempDir zipPath w2)
              else cleanupTemp downloadedFiles tempDir zipPath
                     (sendZip E chatId downloadedFiles zipPath w2)))"

text \<open>The array \<open>downloadedFiles\<close> as the loop of \<open>handlePlaylist\<close> leaves it.\<close>

definition downloadedFiles :: "env \<Rightarrow> int \<Rightarrow> info \<Rightarrow> world \<Rightarrow> (string \<times> string) list" where
  "downloadedFiles E chatId info w =
     fst (processEntries E (mkdtemp E (path_join (tmpdir E) ''ytplaylist-''))
            (take MAX_PLAYLIST_VIDEOS (entries info))
            ([], sendMessage chatId
                   (MsgPlaylistStart (safeTitleOf E (title info) ''playlist'')
                      (length (entries info))) w))"

section \<open>Reading a trace\<close>

text \<open>The events a run adds to the trace it started from.\<close>

definition events_since :: "world \<Rightarrow> world \<Rightarrow> event list" where
  "events_since w w' = drop (length (trace w)) (trace w')"

text \<open>The URLs whose metadata was asked for: one per attempted playlist item.\<close>

fun attempted :: "event list \<Rightarrow> string list" where
  "attempted [] = []"
| "attempted (YtdlInfo u ok # es) = u # attempted es"
| "attempted (e # es) = attempted es"

text \<open>The paths that a download, a merge or an archive run was told to write.\<close>

fun written :: "event list \<Rightarrow> string list" where
  "written [] = []"
| "written (YtdlDownload u f p ok # es) = p # written es"
| "written (FfmpegMerge v a p ok # es) = p # written es"
| "written (ZipFiles fls p ok # es) = p # written es"
| "written (e # es) = written es"

fun isDelivery :: "event \<Rightarrow> bool" where
  "isDelivery (SendVideo c p) = True"
| "isDelivery (SendDocument c p) = True"
| "isDelivery e = False"

text \<open>The events of one turn of the playlist loop, and the calls that rejected.\<close>

fun loopEvent :: "event \<Rightarrow> bool" where
  "loopEvent (YtdlInfo u ok) = True"
| "loopEvent (YtdlDownload u f p ok) = True"
| "loopEvent (FfmpegMerge v a p ok) = True"
| "loopEvent (Unlink p) = True"
| "loopEvent e = False"

fun rejected :: "event \<Rightarrow> bool" where
  "rejected (YtdlInfo u ok) = (\<not> ok)"
| "rejected (YtdlDownload u f p ok) = (\<not> ok)"
| "rejected (FfmpegMerge v a p ok) = (\<not> ok)"
| "rejected (ZipFiles fls p ok) = (\<not> ok)"
| "rejected e = False"

section \<open>Example descriptors\<close>

definition fmt :: "string \<Rightarrow> string \<Rightarrow> int option \<Rightarrow> string \<Rightarrow> string \<Rightarrow> int option \<Rightarrow> int option \<Rightarrow> format" where
  "fmt i e h a v s r =
     \<lparr>format_id = i, ext = e, height = h, acodec = Some a, vcodec = Some v,
      filesize = s, filesize_approx = None, abr = r, bitrate = None\<rparr>"

definition ex_low :: format where
  "ex_low = fmt ''18'' ''mp4'' (Some 360) ''mp4a'' ''avc1'' (Some 500) None"

definition ex_combined1 :: format where
  "ex_combined1 = fmt ''22'' ''mp4'' (Some 720) ''mp4a'' ''avc1'' (Some 1000) None"

definition ex_combined2 :: format where
  "ex_combined2 = fmt ''45'' ''webm'' (Some 720) ''vorbis'' ''vp8'' (Some 900) None"

definition ex_unknown :: format where
  "ex_unknown = fmt ''22'' ''mp4'' (Some 720) ''mp4a'' ''avc1'' None None"

definition ex_video :: format where
  "ex_video = fmt ''136'' ''mp4'' (Some 720) ''none'' ''avc1'' (Some 5000) None"

definition ex_video_unknown :: format where
  "ex_video_unknown = fmt ''247'' ''webm'' (Some 720) ''none'' ''vp9'' None None"

definition ex_audio64 :: format where
  "ex_audio64 = fmt ''139'' ''m4a'' None ''mp4a'' ''none'' (Some 100) (Some 64)"

definition ex_audio128 :: format where
  "ex_audio128 = fmt ''140'' ''m4a'' None ''mp4a'' ''none'' (Some 200) (Some 128)"

definition ex_audio256 :: format where
  "ex_audio256 = fmt ''141'' ''m4a'' None ''mp4a'' ''none'' (Some 400) (Some 256)"

definition ex_audio_unknown :: format where
  "ex_audio_unknown = fmt ''251'' ''webm'' None ''opus'' ''none'' None None"

section \<open>Example catalogs, collaborators and worlds\<close>

definition ex_world :: world where
  "ex_world = \<lparr>files = (\<lambda>p. None), trace = []\<rparr>"

text \<open>
  Collaborators that write a file of the given size: every download resolves, the merge
  resolves or rejects as told, the archive run resolves.
\<close>

definition ex_env :: "int \<Rightarrow> bool \<Rightarrow> int \<Rightarrow> (string \<Rightarrow> info option) \<Rightarrow> env" where
  "ex_env dlSize mergeOk zipSize catalog =
     \<lparr>sanitize = (\<lambda>s. s), dirname = ''/app'', tmpdir = ''/tmp'',
      mkdtemp = (\<lambda>p. p @ ''Ab3dEf''),
      ytdl_info = catalog,
      ytdl_download = (\<lambda>u f p fs. (True, fs(p \<mapsto> dlSize))),
      ffmpeg = (\<lambda>v a p fs. (mergeOk, if mergeOk then fs(p \<mapsto> dlSize) else fs)),
      archiver = (\<lambda>fls p fs. (True, fs(p \<mapsto> zipSize)))\<rparr>"

definition ex_info_combined :: info where
  "ex_info_combined = \<lparr>title = Some ''clip'', formats = [ex_low, ex_combined1], entries = []\<rparr>"

definition ex_info_split :: info where
  "ex_info_split =
     \<lparr>title = Some ''clip'', formats = [ex_video, ex_audio64, ex_audio256], entries = []\<rparr>"

definition ex_entry :: "string \<Rightarrow> entry" where
  "ex_entry i = \<lparr>entry_url = None, entry_id = Some i\<rparr>"

definition ex_playlist15 :: info where
  "ex_playlist15 =
     \<lparr>title = Some ''mix'', formats = [],
      entries = map ex_entry [''a'', ''b'', ''c'', ''d'', ''e'', ''f'', ''g'', ''h'', ''i'', ''j'',
                              ''k'', ''l'', ''m'', ''n'', ''o'']\<rparr>"

definition ex_playlist3 :: info where
  "ex_playlist3 =
     \<lparr>title = Some ''mix'', formats = [], entries = map ex_entry [''one'', ''bad'', ''two'']\<rparr>"

text \<open>A metadata service that rejects one URL and knows the same catalog for every other.\<close>

definition ex_catalog :: "string \<Rightarrow> info option" where
  "ex_catalog u =
     (if u = ''https://www.youtube.com/watch?v=bad'' then None else Some ex_info_combined)"

text \<open>The same collaborators on a run for which \<open>mkdtemp\<close> picks another suffix.\<close>

definition ex_env_other :: env where
  "ex_env_other = (ex_env 1000 True 5000 ex_catalog)\<lparr>mkdtemp := (\<lambda>p. p @ ''Zz9yXw'')\<rparr>"

lemmas ex_defs =
  fmt_def ex_low_def ex_combined1_def ex_combined2_def ex_unknown_def ex_video_def
  ex_video_unknown_def ex_audio64_def ex_audio128_def ex_audio256_def ex_audio_unknown_def

lemmas run_defs =
  handleSingleVideo_def sendCombined_def sendMerged_def mergeTry_def handlePlaylist_def
  processVideo_def sendZip_def cleanupTemp_def rmdirRecursive_def cleanupFile_def
  youtubedl_download_def youtubedl_info_def ffmpegMerge_def zipFiles_def fs_stat_def
  sendMessage_def sendVideo_def sendDocument_def emit_def events_since_def
  combinedPath_def videoPartPath_def audioPartPath_def mergedPath_def path_resolve_def
  path_join_def basename_def safeTitleOf_def titleOr_def videoUrl_def showOpt_def
  MAX_PLAYLIST_VIDEOS_def ex_world_def ex_env_def ex_info_combined_def ex_info_split_def Let_def
  downloadedFiles_def ex_entry_def ex_playlist15_def ex_playlist3_def ex_catalog_def
  ex_env_other_def

lemmas select_defs =
  select_def combinedPred_def videoOnlyPred_def audioPred_def audioCandidates_def js_sort_def
  byRateDesc_def rateOf_def sizeOf_def hasAudio_def hasVideo_def MAX_SIZE_def

section \<open>Properties of the selection\<close>

lemma set_insort_cmp: "set (insort_cmp c x ys) = insert x (set ys)"
  by (induction ys) auto

lemma set_js_sort: "set (js_sort c xs) = set xs"
  by (induction xs) (auto simp: js_sort_def set_insort_cmp)

lemma js_sort_Nil_iff: "(js_sort c xs = []) = (xs = [])"
  using set_js_sort [of c xs] by (metis set_empty)

lemma js_sort_Cons: "js_sort c (x # xs) = insort_cmp c x (js_sort c xs)"
  by (simp add: js_sort_def)

lemma hd_insort_cmp:
  "hd (insort_cmp c x ys) = (if ys = [] \<or> c x (hd ys) \<le> 0 then x else hd ys)"
  by (cases ys) auto

lemma byRateDesc_le0: "(byRateDesc a b \<le> 0) = (rateOf b \<le> rateOf a)"
  by (simp add: byRateDesc_def)

lemma hd_js_sort_max:
  "xs \<noteq> [] \<Longrightarrow> \<forall>x\<in>set xs. rateOf x \<le> rateOf (hd (js_sort byRateDesc xs))"
proof (induction xs)
  case Nil
  then show ?case by simp
next
  case (Cons a xs)
  show ?case
  proof (cases "xs = []")
    case True
    then show ?thesis by (simp add: js_sort_def)
  next
    case False
    with Cons.IH have ih: "\<forall>x\<in>set xs. rateOf x \<le> rateOf (hd (js_sort byRateDesc xs))"
      by simp
    from False have ne: "js_sort byRateDesc xs \<noteq> []"
      by (simp add: js_sort_Nil_iff)
    show ?thesis
      using ih ne by (auto simp: js_sort_Cons hd_insort_cmp byRateDesc_le0)
  qed
qed

lemma find_Some_pred: "find P xs = Some x \<Longrightarrow> P x \<and> x \<in> set xs"
  by (auto simp: find_Some_iff)

lemma audioCandidates_Nil_iff: "(audioCandidates fs = []) = (\<forall>f\<in>set fs. \<not> audioPred f)"
  by (simp add: audioCandidates_def js_sort_Nil_iff filter_empty_conv)

lemma audioCandidates_hd:
  assumes "audioCandidates fs \<noteq> []"
  shows "audioCandidates fs ! 0 \<in> set fs" "audioPred (audioCandidates fs ! 0)"
    "\<forall>c\<in>set fs. audioPred c \<longrightarrow> rateOf c \<le> rateOf (audioCandidates fs ! 0)"
proof -
  let ?cs = "filter audioPred fs"
  from assms have ne: "?cs \<noteq> []"
    by (simp add: audioCandidates_def js_sort_Nil_iff)
  have hd0: "audioCandidates fs ! 0 = hd (js_sort byRateDesc ?cs)"
    using assms by (simp add: audioCandidates_def hd_conv_nth)
  have "hd (js_sort byRateDesc ?cs) \<in> set (js_sort byRateDesc ?cs)"
    using ne by (simp add: js_sort_Nil_iff)
  then have mem: "audioCandidates fs ! 0 \<in> set ?cs"
    by (simp add: hd0 set_js_sort)
  from mem show "audioCandidates fs ! 0 \<in> set fs" by simp
  from mem show "audioPred (audioCandidates fs ! 0)" by simp
  from hd_js_sort_max [OF ne] show "\<forall>c\<in>set fs. audioPred c \<longrightarrow> rateOf c \<le> rateOf (audioCandidates fs ! 0)"
    by (simp add: hd0)
qed

text \<open>
  Claim C1, as the code has it. The claim says that under the cap a descriptor of unknown
  size is never picked. The source reads the size as
  \<open>(f.filesize || f.filesize_approx) || 0\<close> and always compares it with \<open>MAX_SIZE\<close>:
  an unknown size counts as 0 and passes, and there is no mode without a cap. What holds:
  a descriptor with neither size field satisfies the cap, so it qualifies exactly when it
  passes the container, height and codec tests, and a qualifying combined descriptor at the
  head of the catalog is picked.
\<close>

theorem unknown_size_accepted:
  assumes "filesize f = None" and "filesize_approx f = None"
  shows "sizeOf f = 0 \<and> sizeOf f \<le> MAX_SIZE \<and>
         (combinedPred f = ((ext f = ''mp4'' \<or> ext f = ''webm'') \<and> height f = Some 720 \<and>
                             hasAudio f \<and> hasVideo f)) \<and>
         (videoOnlyPred f = ((ext f = ''mp4'' \<or> ext f = ''webm'') \<and> height f = Some 720 \<and>
                             acodec f = Some ''none'' \<and> hasVideo f)) \<and>
         (audioPred f = (hasAudio f \<and> vcodec f = Some ''none'' \<and>
                          (ext f = ''mp4'' \<or> ext f = ''webm'' \<or> ext f = ''m4a''))) \<and>
         (combinedPred f \<longrightarrow> select (f # fs) = Combined f)"
  using assms
  by (simp add: sizeOf_def MAX_SIZE_def combinedPred_def videoOnlyPred_def audioPred_def select_def)

theorem unknown_size_accepted_witness:
  "filesize ex_unknown = None \<and> filesize_approx ex_unknown = None \<and>
   sizeOf ex_unknown = 0 \<and> combinedPred ex_unknown \<and>
   select [ex_unknown, ex_combined1] = Combined ex_unknown"
proof -
  have h1: "filesize ex_unknown = None" and h2: "filesize_approx ex_unknown = None"
    by (simp_all add: ex_defs)
  have c: "(ext ex_unknown = ''mp4'' \<or> ext ex_unknown = ''webm'') \<and> height ex_unknown = Some 720 \<and>
           hasAudio ex_unknown \<and> hasVideo ex_unknown"
    by (simp add: ex_defs select_defs)
  from unknown_size_accepted [OF h1 h2, of "[ex_combined1]"] h1 h2 c show ?thesis by simp
qed

text \<open>
  A combined, a video-only and an audio-only descriptor without any size field, each
  picked under the cap.
\<close>

theorem unknown_size_excluded_counterexample:
  "filesize ex_unknown = None \<and> filesize_approx ex_unknown = None \<and>
   select [ex_low, ex_unknown] = Combined ex_unknown \<and>
   filesize ex_video_unknown = None \<and> filesize_approx ex_video_unknown = None \<and>
   filesize ex_audio_unknown = None \<and> filesize_approx ex_audio_unknown = None \<and>
   select [ex_video_unknown, ex_audio_unknown] = SplitPair ex_video_unknown ex_audio_unknown"
  by (simp add: ex_defs select_defs)

text \<open>
  Claim C5: when some descriptor passes the combined test of the source (container mp4 or
  webm, height 720, both streams, size within \<open>MAX_SIZE\<close>), the selection is
  \<open>Combined\<close> with the first such descriptor in catalog order: it sits at an index
  before which no descriptor passes the test. The witness has two qualifying descriptors
  and the earlier one is returned.
\<close>

theorem select_first_combined:
  assumes "\<exists>f\<in>set fs. combinedPred f"
  shows "\<exists>i<length fs. select fs = Combined (fs ! i) \<and> combinedPred (fs ! i) \<and>
           (\<forall>j<i. \<not> combinedPred (fs ! j))"
proof -
  from assms obtain c where c: "find combinedPred fs = Some c"
    by (cases "find combinedPred fs") (auto simp: find_None_iff)
  then obtain i where "i < length fs" "combinedPred (fs ! i)" "c = fs ! i"
    "\<forall>j<i. \<not> combinedPred (fs ! j)"
    by (auto simp: find_Some_iff)
  moreover from c have "select fs = Combined c"
    by (simp add: select_def)
  ultimately show ?thesis by blast
qed

theorem select_first_combined_witness:
  "(\<exists>f\<in>set [ex_low, ex_combined1, ex_combined2]. combinedPred f) \<and>
   combinedPred ex_combined1 \<and> combinedPred ex_combined2 \<and>
   select [ex_low, ex_combined1, ex_combined2] = Combined ex_combined1 \<and>
   (\<exists>i<length [ex_low, ex_combined1, ex_combined2].
      select [ex_low, ex_combined1, ex_combined2] = Combined ([ex_low, ex_combined1, ex_combined2] ! i) \<and>
      combinedPred ([ex_low, ex_combined1, ex_combined2] ! i) \<and>
      (\<forall>j<i. \<not> combinedPred ([ex_low, ex_combined1, ex_combined2] ! j)))"
proof -
  have h: "\<exists>f\<in>set [ex_low, ex_combined1, ex_combined2]. combinedPred f"
    by (simp add: ex_defs select_defs)
  have e: "combinedPred ex_combined1 \<and> combinedPred ex_combined2 \<and>
      select [ex_low, ex_combined1, ex_combined2] = Combined ex_combined1"
    by (simp add: ex_defs select_defs)
  from select_first_combined [OF h] h e show ?thesis by blast
qed

text \<open>
  Claim C6: with no descriptor passing the combined test, some descriptor passing the
  video-only test and some passing the audio-only test, the selection is a \<open>SplitPair\<close>
  of the first qualifying video-only descriptor and a qualifying audio descriptor whose
  rate \<open>abr || bitrate || 0\<close> is the highest among the qualifying audio descriptors.
  The witness has rates 64, 256 and 128, and 256 is chosen.
\<close>

theorem select_best_audio:
  assumes "\<forall>f\<in>set fs. \<not> combinedPred f"
    and "\<exists>f\<in>set fs. videoOnlyPred f"
    and "\<exists>f\<in>set fs. audioPred f"
  shows "\<exists>v a. select fs = SplitPair v a \<and> find videoOnlyPred fs = Some v \<and>
           a \<in> set fs \<and> audioPred a \<and>
           (\<forall>c\<in>set fs. audioPred c \<longrightarrow> rateOf c \<le> rateOf a)"
proof -
  from assms(1) have c: "find combinedPred fs = None"
    by (simp add: find_None_iff)
  from assms(2) obtain v where v: "find videoOnlyPred fs = Some v"
    by (cases "find videoOnlyPred fs") (auto simp: find_None_iff)
  from assms(3) have ne: "audioCandidates fs \<noteq> []"
    by (simp add: audioCandidates_Nil_iff)
  from c v ne have "select fs = SplitPair v (audioCandidates fs ! 0)"
    by (simp add: select_def)
  with v audioCandidates_hd [OF ne] show ?thesis by blast
qed

theorem select_best_audio_witness:
  "\<not> combinedPred ex_audio64 \<and> \<not> combinedPred ex_video \<and>
   \<not> combinedPred ex_audio256 \<and> \<not> combinedPred ex_audio128 \<and>
   (\<exists>f\<in>set [ex_audio64, ex_video, ex_audio256, ex_audio128]. videoOnlyPred f) \<and>
   (\<exists>f\<in>set [ex_audio64, ex_video, ex_audio256, ex_audio128]. audioPred f) \<and>
   select [ex_audio64, ex_video, ex_audio256, ex_audio128] = SplitPair ex_video ex_audio256 \<and>
   (\<exists>v a. select [ex_audio64, ex_video, ex_audio256, ex_audio128] = SplitPair v a \<and>
      find videoOnlyPred [ex_audio64, ex_video, ex_audio256, ex_audio128] = Some v \<and>
      a \<in> set [ex_audio64, ex_video, ex_audio256, ex_audio128] \<and> audioPred a \<and>
      (\<forall>c\<in>set [ex_audio64, ex_video, ex_audio256, ex_audio128].
          audioPred c \<longrightarrow> rateOf c \<le> rateOf a))"
proof -
  let ?fs = "[ex_audio64, ex_video, ex_audio256, ex_audio128]"
  have h1: "\<forall>f\<in>set ?fs. \<not> combinedPred f"
    by (simp add: ex_defs select_defs)
  have h2: "\<exists>f\<in>set ?fs. videoOnlyPred f"
    by (simp add: ex_defs select_defs)
  have h3: "\<exists>f\<in>set ?fs. audioPred f"
    by (simp add: ex_defs select_defs)
  have e: "select ?fs = SplitPair ex_video ex_audio256"
    by (simp add: ex_defs select_defs)
  have c: "\<exists>v a. select ?fs = SplitPair v a \<and> find videoOnlyPred ?fs = Some v \<and>
      a \<in> set ?fs \<and> audioPred a \<and> (\<forall>c\<in>set ?fs. audioPred c \<longrightarrow> rateOf c \<le> rateOf a)"
    by (rule select_best_audio [OF h1 h2 h3])
  from h1 have h1': "\<not> combinedPred ex_audio64 \<and> \<not> combinedPred ex_video \<and>
      \<not> combinedPred ex_audio256 \<and> \<not> combinedPred ex_audio128"
    by simp
  from c h1' h2 h3 e show ?thesis by blast
qed

text \<open>
  Claim C9: a descriptor returned as \<open>Combined\<close> has both streams, the video component
  of a \<open>SplitPair\<close> has video and its audio component has audio; so no returned
  descriptor lacks both streams.
\<close>

theorem select_streams:
  "(select fs = Combined c \<longrightarrow> hasVideo c \<and> hasAudio c) \<and>
   (select fs = SplitPair v a \<longrightarrow> hasVideo v \<and> hasAudio a) \<and>
   (\<forall>d. select fs = Combined d \<or> (\<exists>x. select fs = SplitPair d x) \<or> (\<exists>x. select fs = SplitPair x d)
        \<longrightarrow> \<not> (\<not> hasVideo d \<and> \<not> hasAudio d))"
proof -
  have comb: "hasVideo d \<and> hasAudio d" if "select fs = Combined d" for d
    using that find_Some_pred [of combinedPred fs d]
    by (auto simp: select_def combinedPred_def split: option.splits if_splits)
  have split: "hasVideo x \<and> hasAudio y" if "select fs = SplitPair x y" for x y
  proof -
    from that have v: "find videoOnlyPred fs = Some x" and ne: "audioCandidates fs \<noteq> []"
      and y: "y = audioCandidates fs ! 0"
      by (auto simp: select_def split: option.splits if_splits)
    from find_Some_pred [OF v] have "hasVideo x" by (simp add: videoOnlyPred_def)
    moreover from audioCandidates_hd(2) [OF ne] y have "hasAudio y" by (simp add: audioPred_def)
    ultimately show ?thesis by simp
  qed
  from comb split show ?thesis by blast
qed

theorem select_streams_witness:
  "select [ex_video, ex_audio64] = SplitPair ex_video ex_audio64 \<and>
   hasVideo ex_video \<and> hasAudio ex_audio64"
proof -
  have e: "select [ex_video, ex_audio64] = SplitPair ex_video ex_audio64"
    by (simp add: ex_defs select_defs)
  from select_streams [of "[ex_video, ex_audio64]" ex_video ex_video ex_audio64] e
  show ?thesis by simp
qed

section \<open>Properties of handleSingleVideo\<close>

lemma trace_emit [simp]: "trace (emit e w) = trace w @ [e]"
  by (simp add: emit_def)

lemma files_emit [simp]: "files (emit e w) = files w"
  by (simp add: emit_def)

lemma trace_sendMessage [simp]: "trace (sendMessage c m w) = trace w @ [SendMessage c m]"
  by (simp add: sendMessage_def)

lemma files_sendMessage [simp]: "files (sendMessage c m w) = files w"
  by (simp add: sendMessage_def)

lemma trace_sendVideo [simp]: "trace (sendVideo c p w) = trace w @ [SendVideo c p]"
  by (simp add: sendVideo_def)

lemma files_sendVideo [simp]: "files (sendVideo c p w) = files w"
  by (simp add: sendVideo_def)

lemma trace_sendDocument [simp]: "trace (sendDocument c p w) = trace w @ [SendDocument c p]"
  by (simp add: sendDocument_def)

lemma files_sendDocument [simp]: "files (sendDocument c p w) = files w"
  by (simp add: sendDocument_def)

lemma trace_cleanupFile [simp]: "trace (cleanupFile p w) = trace w @ [Unlink p]"
  by (simp add: cleanupFile_def)

lemma files_cleanupFile [simp]: "files (cleanupFile p w) = (files w)(p := None)"
  by (simp add: cleanupFile_def)


lemma youtubedl_download_eq:
  "youtubedl_download E u f p w = (ok, w') \<Longrightarrow>
     trace w' = trace w @ [YtdlDownload u f p ok]"
  by (auto simp: youtubedl_download_def split: prod.splits)

lemma ffmpegMerge_eq:
  "ffmpegMerge E v a p w = (ok, w') \<Longrightarrow> trace w' = trace w @ [FfmpegMerge v a p ok]"
  by (auto simp: ffmpegMerge_def split: prod.splits)

lemma zipFiles_eq:
  "zipFiles E fl p w = (ok, w') \<Longrightarrow> trace w' = trace w @ [ZipFiles fl p ok]"
  by (auto simp: zipFiles_def split: prod.splits)

lemma events_since_append: "trace w' = trace w @ es \<Longrightarrow> events_since w w' = es"
  by (simp add: events_since_def)

text \<open>Shape of the combined branch.\<close>

lemma sendCombined_shape:
  assumes "sendCombined E chatId url t c w = (r, w')"
  shows "(r = Threw \<and>
          trace w' = trace w @ [SendMessage chatId (MsgDownloadingCombined (format_id c)),
                                YtdlDownload url (format_id c) (combinedPath E t c) False]) \<or>
         (r = Returned \<and> files w' (combinedPath E t c) = None \<and>
          (\<exists>st. trace w' = trace w @
             [SendMessage chatId (MsgDownloadingCombined (format_id c)),
              YtdlDownload url (format_id c) (combinedPath E t c) True,
              Stat (combinedPath E t c) st,
              (case st of None \<Rightarrow> SendMessage chatId MsgStatError
               | Some n \<Rightarrow> if n > MAX_SIZE then SendMessage chatId MsgOversizeDownloaded
                           else SendVideo chatId (combinedPath E t c)),
              Unlink (combinedPath E t c)]))"
proof -
  let ?p = "combinedPath E t c"
  let ?w1 = "sendMessage chatId (MsgDownloadingCombined (format_id c)) w"
  obtain ok w2 where d: "youtubedl_download E url (format_id c) ?p ?w1 = (ok, w2)"
    by (cases "youtubedl_download E url (format_id c) ?p ?w1") auto
  from youtubedl_download_eq [OF d]
  have t2: "trace w2 = trace w @ [SendMessage chatId (MsgDownloadingCombined (format_id c)),
      YtdlDownload url (format_id c) ?p ok]"
    by simp
  show ?thesis
  proof (cases ok)
    case False
    with assms d t2 show ?thesis
      by (simp add: sendCombined_def Let_def)
  next
    case True
    with assms d t2 show ?thesis
      by (cases "files w2 ?p") (auto simp: sendCombined_def Let_def fs_stat_def split: if_splits)
  qed
qed

lemma mergeTry_shape:
  assumes "mergeTry E chatId url v a vp ap op w = (b, w')"
  shows "(\<not> b \<and> trace w' = trace w @
            [SendMessage chatId (MsgDownloadingVideoOnly (format_id v)),
             YtdlDownload url (format_id v) vp False]) \<or>
         (\<not> b \<and> trace w' = trace w @
            [SendMessage chatId (MsgDownloadingVideoOnly (format_id v)),
             YtdlDownload url (format_id v) vp True,
             SendMessage chatId (MsgDownloadingAudioOnly (format_id a)),
             YtdlDownload url (format_id a) ap False]) \<or>
         (\<not> b \<and> trace w' = trace w @
            [SendMessage chatId (MsgDownloadingVideoOnly (format_id v)),
             YtdlDownload url (format_id v) vp True,
             SendMessage chatId (MsgDownloadingAudioOnly (format_id a)),
             YtdlDownload url (format_id a) ap True,
             SendMessage chatId MsgMerging,
             FfmpegMerge vp ap op False]) \<or>
         (\<not> b \<and> trace w' = trace w @
            [SendMessage chatId (MsgDownloadingVideoOnly (format_id v)),
             YtdlDownload url (format_id v) vp True,
             SendMessage chatId (MsgDownloadingAudioOnly (format_id a)),
             YtdlDownload url (format_id a) ap True,
             SendMessage chatId MsgMerging,
             FfmpegMerge vp ap op True,
             Stat op None]) \<or>
         (b \<and> (\<exists>n. trace w' = trace w @
            [SendMessage chatId (MsgDownloadingVideoOnly (format_id v)),
             YtdlDownload url (format_id v) vp True,
             SendMessage chatId (MsgDownloadingAudioOnly (format_id a)),
             YtdlDownload url (format_id a) ap True,
             SendMessage chatId MsgMerging,
             FfmpegMerge vp ap op True,
             Stat op (Some n),
             (if n > MAX_SIZE then SendMessage chatId MsgOversizeMerged
              else SendVideo chatId op)]))"
proof -
  let ?w1 = "sendMessage chatId (MsgDownloadingVideoOnly (format_id v)) w"
  obtain ok1 w2 where d1: "youtubedl_download E url (format_id v) vp ?w1 = (ok1, w2)"
    by (cases "youtubedl_download E url (format_id v) vp ?w1") auto
  from youtubedl_download_eq [OF d1]
  have t2: "trace w2 = trace w @ [SendMessage chatId (MsgDownloadingVideoOnly (format_id v)),
      YtdlDownload url (format_id v) vp ok1]"
    by simp
  show ?thesis
  proof (cases ok1)
    case False
    with assms d1 t2 show ?thesis by (simp add: mergeTry_def Let_def)
  next
    case ok1: True
    let ?w3 = "sendMessage chatId (MsgDownloadingAudioOnly (format_id a)) w2"
    obtain ok2 w4 where d2: "youtubedl_download E url (format_id a) ap ?w3 = (ok2, w4)"
      by (cases "youtubedl_download E url (format_id a) ap ?w3") auto
    from youtubedl_download_eq [OF d2] t2 ok1
    have t4: "trace w4 = trace w @ [SendMessage chatId (MsgDownloadingVideoOnly (format_id v)),
        YtdlDownload url (format_id v) vp True,
        SendMessage chatId (MsgDownloadingAudioOnly (format_id a)),
        YtdlDownload url (format_id a) ap ok2]"
      by simp
    show ?thesis
    proof (cases ok2)
      case False
      with assms d1 d2 ok1 t4 show ?thesis by (simp add: mergeTry_def Let_def)
    next
      case ok2: True
      let ?w5 = "sendMessage chatId MsgMerging w4"
      obtain ok3 w6 where m: "ffmpegMerge E vp ap op ?w5 = (ok3, w6)"
        by (cases "ffmpegMerge E vp ap op ?w5") auto
      from ffmpegMerge_eq [OF m] t4 ok2
      have t6: "trace w6 = trace w @ [SendMessage chatId (MsgDownloadingVideoOnly (format_id v)),
          YtdlDownload url (format_id v) vp True,
          SendMessage chatId (MsgDownloadingAudioOnly (format_id a)),
          YtdlDownload url (format_id a) ap True,
          SendMessage chatId MsgMerging,
          FfmpegMerge vp ap op ok3]"
        by simp
      show ?thesis
      proof (cases ok3)
        case False
        with assms d1 d2 m ok1 ok2 t6 show ?thesis by (simp add: mergeTry_def Let_def)
      next
        case ok3: True
        show ?thesis
        proof (cases "files w6 op")
          case None
          with assms d1 d2 m ok1 ok2 ok3 t6 show ?thesis
            by (auto simp: mergeTry_def Let_def fs_stat_def)
        next
          case (Some n)
          with assms d1 d2 m ok1 ok2 ok3 t6 show ?thesis
            by (auto simp: mergeTry_def Let_def fs_stat_def split: if_splits)
        qed
      qed
    qed
  qed
qed

lemma sendMerged_shape:
  assumes run: "sendMerged E chatId url t v a w = (r, w')"
    and vp: "vp = videoPartPath E t v" and ap: "ap = audioPartPath E t a"
    and op: "op = mergedPath E t"
    and dv: "dv = [SendMessage chatId (MsgDownloadingVideoOnly (format_id v))]"
    and da: "da = [SendMessage chatId (MsgDownloadingAudioOnly (format_id a))]"
    and er: "er = [SendMessage chatId MsgDownloadOrMergeError]"
    and cl: "cl = [Unlink vp, Unlink ap, Unlink op]"
  shows "r = Returned \<and> files w' vp = None \<and> files w' ap = None \<and> files w' op = None \<and>
    (trace w' = trace w @ dv @ [YtdlDownload url (format_id v) vp False] @ er @ cl \<or>
     trace w' = trace w @ dv @ [YtdlDownload url (format_id v) vp True] @ da @
        [YtdlDownload url (format_id a) ap False] @ er @ cl \<or>
     trace w' = trace w @ dv @ [YtdlDownload url (format_id v) vp True] @ da @
        [YtdlDownload url (format_id a) ap True, SendMessage chatId MsgMerging,
         FfmpegMerge vp ap op False] @ er @ cl \<or>
     trace w' = trace w @ dv @ [YtdlDownload url (format_id v) vp True] @ da @
        [YtdlDownload url (format_id a) ap True, SendMessage chatId MsgMerging,
         FfmpegMerge vp ap op True, Stat op None] @ er @ cl \<or>
     (\<exists>n. trace w' = trace w @ dv @ [YtdlDownload url (format_id v) vp True] @ da @
        [YtdlDownload url (format_id a) ap True, SendMessage chatId MsgMerging,
         FfmpegMerge vp ap op True, Stat op (Some n),
         (if n > MAX_SIZE then SendMessage chatId MsgOversizeMerged else SendVideo chatId op)]
        @ cl))"
proof -
  obtain b w1 where m: "mergeTry E chatId url v a vp ap op w = (b, w1)"
    by (cases "mergeTry E chatId url v a vp ap op w") auto
  from run m have r: "r = Returned"
    and w': "w' = cleanupFile op (cleanupFile ap (cleanupFile vp
                   (if b then w1 else sendMessage chatId MsgDownloadOrMergeError w1)))"
    by (auto simp: sendMerged_def Let_def vp ap op split: bool.splits)
  from w' have f: "files w' vp = None \<and> files w' ap = None \<and> files w' op = None"
    by simp
  from mergeTry_shape [OF m] r f show ?thesis
    unfolding w' dv da er cl by (elim disjE conjE exE) simp_all
qed

lemma handleSingleVideo_cases:
  assumes "handleSingleVideo E chatId info url w = (r, w')"
    and t: "t = safeTitleOf E (title info) ''video''"
    and w1: "w1 = sendMessage chatId (MsgProcessing t) w"
    and w2: "w2 = sendMessage chatId MsgNoCombined w1"
  shows "(\<exists>c. select (formats info) = Combined c \<and> sendCombined E chatId url t c w1 = (r, w')) \<or>
         (select (formats info) = NoneFound NoVideoOnly \<and> r = Returned \<and>
            w' = sendMessage chatId MsgNoVideoOnly w2) \<or>
         (select (formats info) = NoneFound NoAudioOnly \<and> r = Returned \<and>
            w' = sendMessage chatId MsgNoAudioOnly w2) \<or>
         (\<exists>v a. select (formats info) = SplitPair v a \<and>
            sendMerged E chatId url t v a w2 = (r, w'))"
  using assms
  by (auto simp: handleSingleVideo_def select_def Let_def split: option.splits if_splits)

text \<open>
  Every run of \<open>handleSingleVideo\<close>: what it returns, the events it adds, and the state
  of the paths it used.
\<close>

lemma handleSingleVideo_events:
  assumes run: "handleSingleVideo E chatId info url w = (r, w')"
    and t: "t = safeTitleOf E (title info) ''video''"
    and evs: "evs = events_since w w'"
  shows
    "(\<exists>c p. select (formats info) = Combined c \<and> p = combinedPath E t c \<and>
        (r = Threw \<and>
         evs = [SendMessage chatId (MsgProcessing t),
                SendMessage chatId (MsgDownloadingCombined (format_id c)),
                YtdlDownload url (format_id c) p False] \<or>
         r = Returned \<and> files w' p = None \<and>
         (\<exists>st. evs = [SendMessage chatId (MsgProcessing t),
                SendMessage chatId (MsgDownloadingCombined (format_id c)),
                YtdlDownload url (format_id c) p True,
                Stat p st,
                (case st of None \<Rightarrow> SendMessage chatId MsgStatError
                 | Some n \<Rightarrow> if n > MAX_SIZE then SendMessage chatId MsgOversizeDownloaded
                             else SendVideo chatId p),
                Unlink p]))) \<or>
     (select (formats info) = NoneFound NoVideoOnly \<and> r = Returned \<and> files w' = files w \<and>
        evs = [SendMessage chatId (MsgProcessing t), SendMessage chatId MsgNoCombined,
               SendMessage chatId MsgNoVideoOnly]) \<or>
     (select (formats info) = NoneFound NoAudioOnly \<and> r = Returned \<and> files w' = files w \<and>
        evs = [SendMessage chatId (MsgProcessing t), SendMessage chatId MsgNoCombined,
               SendMessage chatId MsgNoAudioOnly]) \<or>
     (\<exists>v a vp ap op. select (formats info) = SplitPair v a \<and>
        vp = videoPartPath E t v \<and> ap = audioPartPath E t a \<and> op = mergedPath E t \<and>
        r = Returned \<and> files w' vp = None \<and> files w' ap = None \<and> files w' op = None \<and>
        (\<exists>mid. evs = [SendMessage chatId (MsgProcessing t), SendMessage chatId MsgNoCombined,
                       SendMessage chatId (MsgDownloadingVideoOnly (format_id v))] @ mid @
                      [Unlink vp, Unlink ap, Unlink op] \<and>
          (mid = [YtdlDownload url (format_id v) vp False,
                  SendMessage chatId MsgDownloadOrMergeError] \<or>
           mid = [YtdlDownload url (format_id v) vp True,
                  SendMessage chatId (MsgDownloadingAudioOnly (format_id a)),
                  YtdlDownload url (format_id a) ap False,
                  SendMessage chatId MsgDownloadOrMergeError] \<or>
           mid = [YtdlDownload url (format_id v) vp True,
                  SendMessage chatId (MsgDownloadingAudioOnly (format_id a)),
                  YtdlDownload url (format_id a) ap True,
                  SendMessage chatId MsgMerging,
                  FfmpegMerge vp ap op False,
                  SendMessage chatId MsgDownloadOrMergeError] \<or>
           mid = [YtdlDownload url (format_id v) vp True,
                  SendMessage chatId (MsgDownloadingAudioOnly (format_id a)),
                  YtdlDownload url (format_id a) ap True,
                  SendMessage chatId MsgMerging,
                  FfmpegMerge vp ap op True,
                  Stat op None,
                  SendMessage chatId MsgDownloadOrMergeError] \<or>
           (\<exists>n. mid = [YtdlDownload url (format_id v) vp True,
                  SendMessage chatId (MsgDownloadingAudioOnly (format_id a)),
                  YtdlDownload url (format_id a) ap True,
                  SendMessage chatId MsgMerging,
                  FfmpegMerge vp ap op True,
                  Stat op (Some n),
                  (if n > MAX_SIZE then SendMessage chatId MsgOversizeMerged
                   else SendVideo chatId op)]))))"
proof -
  let ?w1 = "sendMessage chatId (MsgProcessing t) w"
  let ?w2 = "sendMessage chatId MsgNoCombined ?w1"
  from handleSingleVideo_cases [OF run t refl refl]
  consider (comb) c where "select (formats info) = Combined c"
      "sendCombined E chatId url t c ?w1 = (r, w')"
    | (nov) "select (formats info) = NoneFound NoVideoOnly" "r = Returned"
      "w' = sendMessage chatId MsgNoVideoOnly ?w2"
    | (noa) "select (formats info) = NoneFound NoAudioOnly" "r = Returned"
      "w' = sendMessage chatId MsgNoAudioOnly ?w2"
    | (split) v a where "select (formats info) = SplitPair v a"
      "sendMerged E chatId url t v a ?w2 = (r, w')"
    by blast
  then show ?thesis
  proof cases
    case comb
    from sendCombined_shape [OF comb(2)] comb(1) show ?thesis
      unfolding evs events_since_def by (elim disjE conjE exE) simp_all
  next
    case nov
    then show ?thesis by (simp add: evs events_since_def)
  next
    case noa
    then show ?thesis by (simp add: evs events_since_def)
  next
    case split
    from sendMerged_shape [OF split(2) refl refl refl refl refl refl refl] split(1)
    show ?thesis
      unfolding evs events_since_def by (elim disjE conjE exE) simp_all
  qed
qed


lemma single_oversize_only_above:
  assumes "handleSingleVideo E chatId info url w = (r, w')"
    and "SendMessage chatId MsgOversizeDownloaded \<in> set (events_since w w') \<or>
         SendMessage chatId MsgOversizeMerged \<in> set (events_since w w')"
  shows "\<exists>p n. Stat p (Some n) \<in> set (events_since w w') \<and> MAX_SIZE < n"
  using handleSingleVideo_events [OF assms(1) refl refl] assms(2)
  by (elim disjE conjE exE) (auto split: option.splits if_splits)





section \<open>Properties of handlePlaylist\<close>

lemma attempted_append: "attempted (xs @ ys) = attempted xs @ attempted ys"
  by (induction xs rule: attempted.induct) auto

lemma written_append: "written (xs @ ys) = written xs @ written ys"
  by (induction xs rule: written.induct) auto

lemma prefix_path_join: "prefix (d @ ''/'') (path_join d n)"
  by (simp add: path_join_def)

lemma youtubedl_info_eq:
  "youtubedl_info E u w = (i, w') \<Longrightarrow>
     i = ytdl_info E u \<and> trace w' = trace w @ [YtdlInfo u (i \<noteq> None)]"
  by (auto simp: youtubedl_info_def)

lemma processVideo_combined:
  assumes "youtubedl_info E (videoUrl video) w = (Some vi, w1)"
    and "find combinedPred (formats vi) = Some c"
    and "processVideo E d video (fl, w) = (fl', w')"
  shows "\<exists>ok p. prefix (d @ ''/'') p \<and>
           trace w' = trace w @ [YtdlInfo (videoUrl video) True,
                                 YtdlDownload (videoUrl video) (format_id c) p ok] \<and>
           fl' = (if ok then fl @ [(p, basename p)] else fl)"
proof -
  let ?p = "path_join d (safeTitleOf E (title vi) ''video'' @ ''_'' @ format_id c @ ''.'' @ ext c)"
  obtain ok w2 where dl: "youtubedl_download E (videoUrl video) (format_id c) ?p w1 = (ok, w2)"
    by (cases "youtubedl_download E (videoUrl video) (format_id c) ?p w1") auto
  from youtubedl_info_eq [OF assms(1)] youtubedl_download_eq [OF dl]
  have t: "trace w2 = trace w @ [YtdlInfo (videoUrl video) True,
      YtdlDownload (videoUrl video) (format_id c) ?p ok]"
    by simp
  from assms dl have "w' = w2" and "fl' = (if ok then fl @ [(?p, basename ?p)] else fl)"
    by (auto simp: processVideo_def Let_def split: bool.splits)
  with t prefix_path_join [of d] show ?thesis by blast
qed

lemma processVideo_split:
  assumes i: "youtubedl_info E (videoUrl video) w = (Some vi, w1)"
    and c: "find combinedPred (formats vi) = None"
    and v: "find videoOnlyPred (formats vi) = Some v"
    and ne: "audioCandidates (formats vi) \<noteq> []"
    and a: "a = audioCandidates (formats vi) ! 0"
    and run: "processVideo E d video (fl, w) = (fl', w')"
    and vp: "vp = path_join d (safeTitleOf E (title vi) ''video'' @ ''_video.'' @ ext v)"
    and ap: "ap = path_join d (safeTitleOf E (title vi) ''video'' @ ''_audio.'' @ ext a)"
    and op: "op = path_join d (safeTitleOf E (title vi) ''video'' @ ''_720p_merged.mp4'')"
  shows
     "fl' = fl \<and> trace w' = trace w @
        [YtdlInfo (videoUrl video) True,
         YtdlDownload (videoUrl video) (format_id v) vp False] \<or>
      fl' = fl \<and> trace w' = trace w @
        [YtdlInfo (videoUrl video) True,
         YtdlDownload (videoUrl video) (format_id v) vp True,
         YtdlDownload (videoUrl video) (format_id a) ap False] \<or>
      fl' = fl \<and> trace w' = trace w @
        [YtdlInfo (videoUrl video) True,
         YtdlDownload (videoUrl video) (format_id v) vp True,
         YtdlDownload (videoUrl video) (format_id a) ap True,
         FfmpegMerge vp ap op False] \<or>
      fl' = fl @ [(op, basename op)] \<and> trace w' = trace w @
        [YtdlInfo (videoUrl video) True,
         YtdlDownload (videoUrl video) (format_id v) vp True,
         YtdlDownload (videoUrl video) (format_id a) ap True,
         FfmpegMerge vp ap op True, Unlink vp, Unlink ap]"
proof -
  from ne have len: "length (audioCandidates (formats vi)) \<noteq> 0"
    by simp
  from youtubedl_info_eq [OF i] have t1: "trace w1 = trace w @ [YtdlInfo (videoUrl video) True]"
    by simp
  obtain ok1 w2 where d1: "youtubedl_download E (videoUrl video) (format_id v) vp w1 = (ok1, w2)"
    by (cases "youtubedl_download E (videoUrl video) (format_id v) vp w1") auto
  from youtubedl_download_eq [OF d1] t1
  have t2: "trace w2 = trace w @ [YtdlInfo (videoUrl video) True,
      YtdlDownload (videoUrl video) (format_id v) vp ok1]"
    by simp
  from i c v len run
  have run': "(case youtubedl_download E (videoUrl video) (format_id v) vp w1 of
        (False, w2) \<Rightarrow> (fl, w2)
      | (True, w2) \<Rightarrow>
         (case youtubedl_download E (videoUrl video) (format_id a) ap w2 of
            (False, w3) \<Rightarrow> (fl, w3)
          | (True, w3) \<Rightarrow>
             (case ffmpegMerge E vp ap op w3 of
                (False, w4) \<Rightarrow> (fl, w4)
              | (True, w4) \<Rightarrow>
                 (fl @ [(op, basename op)], cleanupFile ap (cleanupFile vp w4))))) = (fl', w')"
    unfolding processVideo_def Let_def vp ap op a
    by (simp only: prod.case option.case if_False)
  show ?thesis
  proof (cases ok1)
    case False
    with run' d1 have "fl' = fl \<and> w' = w2"
      by simp
    with t2 False show ?thesis by simp
  next
    case ok1: True
    obtain ok2 w3 where d2: "youtubedl_download E (videoUrl video) (format_id a) ap w2 = (ok2, w3)"
      by (cases "youtubedl_download E (videoUrl video) (format_id a) ap w2") auto
    from youtubedl_download_eq [OF d2] t2 ok1
    have t3: "trace w3 = trace w @ [YtdlInfo (videoUrl video) True,
        YtdlDownload (videoUrl video) (format_id v) vp True,
        YtdlDownload (videoUrl video) (format_id a) ap ok2]"
      by simp
    show ?thesis
    proof (cases ok2)
      case False
      with run' d1 d2 ok1 have "fl' = fl \<and> w' = w3"
        by simp
      with t3 False show ?thesis by simp
    next
      case ok2: True
      obtain ok3 w4 where m: "ffmpegMerge E vp ap op w3 = (ok3, w4)"
        by (cases "ffmpegMerge E vp ap op w3") auto
      from ffmpegMerge_eq [OF m] t3 ok2
      have t4: "trace w4 = trace w @ [YtdlInfo (videoUrl video) True,
          YtdlDownload (videoUrl video) (format_id v) vp True,
          YtdlDownload (videoUrl video) (format_id a) ap True,
          FfmpegMerge vp ap op ok3]"
        by simp
      show ?thesis
      proof (cases ok3)
        case False
        with run' d1 d2 m ok1 ok2 have "fl' = fl \<and> w' = w4"
          by simp
        with t4 False show ?thesis by simp
      next
        case True
        with run' d1 d2 m ok1 ok2
        have "fl' = fl @ [(op, basename op)] \<and> w' = cleanupFile ap (cleanupFile vp w4)"
          by simp
        with t4 True show ?thesis by simp
      qed
    qed
  qed
qed

lemma processVideo_no_selection:
  assumes "ytdl_info E (videoUrl video) = Some vi"
    and "select (formats vi) = NoneFound rsn"
  shows "processVideo E d video (fl, w) = (fl, emit (YtdlInfo (videoUrl video) True) w)"
  using assms
  by (auto simp: processVideo_def youtubedl_info_def select_def Let_def
      split: option.splits if_splits)

lemma processVideo_no_info:
  assumes "ytdl_info E (videoUrl video) = None"
  shows "processVideo E d video (fl, w) = (fl, emit (YtdlInfo (videoUrl video) False) w)"
  using assms by (simp add: processVideo_def youtubedl_info_def)

lemma processVideo_shape:
  assumes run: "processVideo E d video (fl, w) = (fl', w')"
  shows "\<exists>es. trace w' = trace w @ es \<and> attempted es = [videoUrl video] \<and>
           (\<forall>e\<in>set es. loopEvent e) \<and>
           (\<forall>p\<in>set (written es). prefix (d @ ''/'') p) \<and>
           (fl' = fl \<or> (\<exists>p. fl' = fl @ [(p, basename p)] \<and> prefix (d @ ''/'') p)) \<and>
           ((\<exists>e\<in>set es. rejected e) \<longrightarrow> fl' = fl)"
proof (cases "ytdl_info E (videoUrl video)")
  case None
  from processVideo_no_info [OF None, of d fl w] run show ?thesis by auto
next
  case (Some vi)
  then have i: "youtubedl_info E (videoUrl video) w = (Some vi, emit (YtdlInfo (videoUrl video) True) w)"
    by (simp add: youtubedl_info_def)
  show ?thesis
  proof (cases "select (formats vi)")
    case (Combined c)
    then have "find combinedPred (formats vi) = Some c"
      by (auto simp: select_def split: option.splits if_splits)
    from processVideo_combined [OF i this run] show ?thesis by auto
  next
    case (NoneFound rsn)
    from processVideo_no_selection [OF Some NoneFound, of d fl w] run show ?thesis by auto
  next
    case (SplitPair v a)
    then have "find combinedPred (formats vi) = None" "find videoOnlyPred (formats vi) = Some v"
      "audioCandidates (formats vi) \<noteq> []" "a = audioCandidates (formats vi) ! 0"
      by (auto simp: select_def split: option.splits if_splits)
    from processVideo_split [OF i this run refl refl refl] show ?thesis
      by (elim conjE disjE) (simp_all add: prefix_path_join)
  qed
qed

lemma processEntries_shape:
  "processEntries E d ents (fl, w) = (fl', w') \<Longrightarrow>
     \<exists>es. trace w' = trace w @ es \<and> attempted es = map videoUrl ents \<and>
          (\<forall>e\<in>set es. loopEvent e) \<and>
          (\<forall>p\<in>set (written es). prefix (d @ ''/'') p)"
proof (induction ents arbitrary: fl w)
  case Nil
  then show ?case by simp
next
  case (Cons video rest)
  obtain fl1 w1 where pv: "processVideo E d video (fl, w) = (fl1, w1)"
    by (cases "processVideo E d video (fl, w)") auto
  from processVideo_shape [OF pv] obtain es1 where
    e1: "trace w1 = trace w @ es1" "attempted es1 = [videoUrl video]"
      "\<forall>e\<in>set es1. loopEvent e" "\<forall>p\<in>set (written es1). prefix (d @ ''/'') p"
    by blast
  from Cons.prems pv have "processEntries E d rest (fl1, w1) = (fl', w')"
    by simp
  from Cons.IH [OF this] obtain es2 where
    e2: "trace w' = trace w1 @ es2" "attempted es2 = map videoUrl rest"
      "\<forall>e\<in>set es2. loopEvent e" "\<forall>p\<in>set (written es2). prefix (d @ ''/'') p"
    by blast
  from e1 e2 have "trace w' = trace w @ (es1 @ es2) \<and>
      attempted (es1 @ es2) = map videoUrl (video # rest) \<and>
      (\<forall>e\<in>set (es1 @ es2). loopEvent e) \<and>
      (\<forall>p\<in>set (written (es1 @ es2)). prefix (d @ ''/'') p)"
    by (auto simp: attempted_append written_append)
  then show ?case by blast
qed

lemma trace_cleanupFiles: "trace (cleanupFiles fl w) = trace w @ map (\<lambda>f. Unlink (fst f)) fl"
  by (induction fl arbitrary: w) auto

lemma files_cleanupFiles:
  "files (cleanupFiles fl w) p = (if p \<in> fst ` set fl then None else files w p)"
  by (induction fl arbitrary: w) auto

lemma trace_cleanupTemp:
  "trace (cleanupTemp fl d zp w) = trace w @ map (\<lambda>f. Unlink (fst f)) fl @ [Rmdir d, Unlink zp]"
  by (simp add: cleanupTemp_def rmdirRecursive_def trace_cleanupFiles)

lemma files_cleanupTemp:
  "files (cleanupTemp fl d zp w) p =
     (if p = zp \<or> prefix (d @ ''/'') p \<or> p \<in> fst ` set fl then None else files w p)"
  by (simp add: cleanupTemp_def rmdirRecursive_def files_cleanupFiles)

lemma attempted_unlinks: "attempted (map (\<lambda>f. Unlink (fst f)) fl) = []"
  by (induction fl) auto


lemma sendZip_shape:
  assumes "sendZip E chatId fl zp w = w'"
  shows "trace w' = trace w @ [ZipFiles fl zp False, SendMessage chatId MsgZipFailed] \<or>
         trace w' = trace w @ [ZipFiles fl zp True, Stat zp None, SendMessage chatId MsgZipFailed] \<or>
         (\<exists>n. trace w' = trace w @ [ZipFiles fl zp True, Stat zp (Some n),
                  (if n > MAX_SIZE then SendMessage chatId MsgOversizeZip
                   else SendDocument chatId zp)])"
proof -
  obtain ok w1 where z: "zipFiles E fl zp w = (ok, w1)"
    by (cases "zipFiles E fl zp w") auto
  from zipFiles_eq [OF z] have t1: "trace w1 = trace w @ [ZipFiles fl zp ok]" .
  show ?thesis
  proof (cases ok)
    case False
    with assms z t1 show ?thesis by (auto simp: sendZip_def)
  next
    case True
    with assms z t1 show ?thesis
      by (cases "files w1 zp") (auto simp: sendZip_def fs_stat_def)
  qed
qed

lemma processVideo_skip_iff:
  assumes run: "processVideo E d video (fl, w) = (fl', w')"
  shows "(fl' = fl) =
         ((\<exists>e\<in>set (events_since w w'). rejected e) \<or>
          (\<exists>vi rsn. ytdl_info E (videoUrl video) = Some vi \<and> select (formats vi) = NoneFound rsn))"
proof (cases "ytdl_info E (videoUrl video)")
  case None
  from processVideo_no_info [OF None, of d fl w] run show ?thesis
    by (auto simp: events_since_def)
next
  case (Some vi)
  then have i: "youtubedl_info E (videoUrl video) w = (Some vi, emit (YtdlInfo (videoUrl video) True) w)"
    by (simp add: youtubedl_info_def)
  show ?thesis
  proof (cases "select (formats vi)")
    case (Combined c)
    then have "find combinedPred (formats vi) = Some c"
      by (auto simp: select_def split: option.splits if_splits)
    from processVideo_combined [OF i this run] Some Combined show ?thesis
      by (auto simp: events_since_def)
  next
    case (NoneFound rsn)
    from processVideo_no_selection [OF Some NoneFound, of d fl w] run Some NoneFound
    show ?thesis by auto
  next
    case (SplitPair v a)
    then have "find combinedPred (formats vi) = None" "find videoOnlyPred (formats vi) = Some v"
      "audioCandidates (formats vi) \<noteq> []" "a = audioCandidates (formats vi) ! 0"
      by (auto simp: select_def split: option.splits if_splits)
    from processVideo_split [OF i this run refl refl refl] Some SplitPair show ?thesis
      by (elim conjE disjE) (simp_all add: events_since_def)
  qed
qed

lemma handlePlaylist_events:
  assumes t: "t = safeTitleOf E (title info) ''playlist''"
    and d: "d = mkdtemp E (path_join (tmpdir E) ''ytplaylist-'')"
    and zp: "zp = path_resolve (dirname E) (t @ ''.zip'')"
    and fl: "fl = downloadedFiles E chatId info w"
    and w': "w' = handlePlaylist E chatId info w"
    and evs: "evs = events_since w w'"
  shows "\<exists>es. attempted es = map videoUrl (take MAX_PLAYLIST_VIDEOS (entries info)) \<and>
           (\<forall>e\<in>set es. loopEvent e) \<and>
           (\<forall>p\<in>set (written es). prefix (d @ ''/'') p) \<and>
           files w' zp = None \<and> (\<forall>p. prefix (d @ ''/'') p \<longrightarrow> files w' p = None) \<and>
           (\<forall>p\<in>fst ` set fl. files w' p = None) \<and>
           (fl = [] \<and>
            evs = [SendMessage chatId (MsgPlaylistStart t (length (entries info)))] @ es @
                  [Rmdir d, Unlink zp, SendMessage chatId MsgNoVideosDownloaded] \<or>
            fl \<noteq> [] \<and>
            (\<exists>z. evs = [SendMessage chatId (MsgPlaylistStart t (length (entries info)))] @ es @
                        z @ map (\<lambda>f. Unlink (fst f)) fl @ [Rmdir d, Unlink zp] \<and>
               (z = [ZipFiles fl zp False, SendMessage chatId MsgZipFailed] \<or>
                z = [ZipFiles fl zp True, Stat zp None, SendMessage chatId MsgZipFailed] \<or>
                (\<exists>n. z = [ZipFiles fl zp True, Stat zp (Some n),
                           (if n > MAX_SIZE then SendMessage chatId MsgOversizeZip
                            else SendDocument chatId zp)]))))"
proof -
  let ?w1 = "sendMessage chatId (MsgPlaylistStart t (length (entries info))) w"
  let ?ents = "take MAX_PLAYLIST_VIDEOS (entries info)"
  obtain fl0 w2 where loop: "processEntries E d ?ents ([], ?w1) = (fl0, w2)"
    by (cases "processEntries E d ?ents ([], ?w1)") auto
  then have fl0: "fl0 = fl"
    by (simp add: fl downloadedFiles_def t d)
  from processEntries_shape [OF loop] obtain es where
    es: "trace w2 = trace ?w1 @ es" "attempted es = map videoUrl ?ents"
      "\<forall>e\<in>set es. loopEvent e" "\<forall>p\<in>set (written es). prefix (d @ ''/'') p"
    by blast
  have run: "w' = (if length fl = 0
        then sendMessage chatId MsgNoVideosDownloaded (cleanupTemp fl d zp w2)
        else cleanupTemp fl d zp (sendZip E chatId fl zp w2))"
    using loop fl0 unfolding w' handlePlaylist_def Let_def t d zp
    by (simp only: prod.case)
  show ?thesis
  proof (cases "fl = []")
    case True
    with run es(1) have "files w' zp = None \<and> (\<forall>p. prefix (d @ ''/'') p \<longrightarrow> files w' p = None) \<and>
        (\<forall>p\<in>fst ` set fl. files w' p = None) \<and>
        evs = [SendMessage chatId (MsgPlaylistStart t (length (entries info)))] @ es @
                  [Rmdir d, Unlink zp, SendMessage chatId MsgNoVideosDownloaded]"
      by (simp add: evs events_since_def trace_cleanupTemp files_cleanupTemp)
    with es True show ?thesis by blast
  next
    case False
    let ?w3 = "sendZip E chatId fl zp w2"
    from False run have w3: "w' = cleanupTemp fl d zp ?w3"
      by simp
    then have f: "files w' zp = None \<and> (\<forall>p. prefix (d @ ''/'') p \<longrightarrow> files w' p = None) \<and>
        (\<forall>p\<in>fst ` set fl. files w' p = None)"
      by (simp add: files_cleanupTemp)
    from sendZip_shape [of E chatId fl zp w2 ?w3]
    obtain z where z: "trace ?w3 = trace w2 @ z"
      "z = [ZipFiles fl zp False, SendMessage chatId MsgZipFailed] \<or>
       z = [ZipFiles fl zp True, Stat zp None, SendMessage chatId MsgZipFailed] \<or>
       (\<exists>n. z = [ZipFiles fl zp True, Stat zp (Some n),
                  (if n > MAX_SIZE then SendMessage chatId MsgOversizeZip
                   else SendDocument chatId zp)])"
      by auto
    from w3 z(1) es(1)
    have "evs = [SendMessage chatId (MsgPlaylistStart t (length (entries info)))] @ es @
                        z @ map (\<lambda>f. Unlink (fst f)) fl @ [Rmdir d, Unlink zp]"
      by (simp add: evs events_since_def trace_cleanupTemp)
    with z(2) f es False show ?thesis by blast
  qed
qed

lemma loopEvent_cases:
  "loopEvent e \<Longrightarrow> \<not> isDelivery e \<and> (\<forall>fls p ok. e \<noteq> ZipFiles fls p ok)"
  by (cases e) auto

lemma handlePlaylist_attempted:
  "attempted (events_since w (handlePlaylist E chatId info w)) =
     map videoUrl (take MAX_PLAYLIST_VIDEOS (entries info))"
  using handlePlaylist_events [OF refl refl refl refl refl refl, where E = E and info = info and chatId = chatId and w = w]
  by (elim exE conjE disjE) (simp_all add: attempted_append attempted_unlinks)

lemma handlePlaylist_total_failure:
  "(SendMessage chatId MsgNoVideosDownloaded \<in> set (events_since w (handlePlaylist E chatId info w))) =
     (downloadedFiles E chatId info w = [])"
  using handlePlaylist_events [OF refl refl refl refl refl refl, where E = E and info = info and chatId = chatId and w = w]
  by (elim exE conjE disjE) auto

lemma handlePlaylist_nothing_sent:
  assumes "downloadedFiles E chatId info w = []"
    and "e \<in> set (events_since w (handlePlaylist E chatId info w))"
  shows "\<not> isDelivery e \<and> (\<forall>fls p ok. e \<noteq> ZipFiles fls p ok)"
  using handlePlaylist_events [OF refl refl refl refl refl refl, where E = E and info = info and chatId = chatId and w = w] assms
  by (elim exE conjE disjE) (auto dest: loopEvent_cases)

lemma handlePlaylist_zip_attempted:
  assumes "downloadedFiles E chatId info w \<noteq> []"
  shows "\<exists>ok. ZipFiles (downloadedFiles E chatId info w)
             (path_resolve (dirname E) (safeTitleOf E (title info) ''playlist'' @ ''.zip'')) ok
           \<in> set (events_since w (handlePlaylist E chatId info w))"
  using handlePlaylist_events [OF refl refl refl refl refl refl, where E = E and info = info and chatId = chatId and w = w] assms
  by (elim exE conjE disjE) auto



text \<open>
  Claim C4: a turn of the loop whose item fails (a rejected metadata call, download or
  merge, or no selection) leaves \<open>downloadedFiles\<close> as it was, and only such a turn
  does; the loop goes on with the next entry, so every entry up to the cap is attempted
  whatever happened before. The notice of total failure is sent exactly when
  \<open>downloadedFiles\<close> is empty after the loop; then no archive is written and nothing is
  delivered, and otherwise the archive of the surviving items is attempted.
\<close>

theorem batch_error_propagation:
  "processEntries E d (video # rest) (fl, w0) =
     processEntries E d rest (processVideo E d video (fl, w0)) \<and>
   (fst (processVideo E d video (fl, w0)) = fl) =
     ((\<exists>e\<in>set (events_since w0 (snd (processVideo E d video (fl, w0)))). rejected e) \<or>
      (\<exists>vi rsn. ytdl_info E (videoUrl video) = Some vi \<and> select (formats vi) = NoneFound rsn)) \<and>
   (fst (processVideo E d video (fl, w0)) = fl \<or>
    (\<exists>x. fst (processVideo E d video (fl, w0)) = fl @ [x])) \<and>
   attempted (events_since w (handlePlaylist E chatId info w)) =
     map videoUrl (take MAX_PLAYLIST_VIDEOS (entries info)) \<and>
   (SendMessage chatId MsgNoVideosDownloaded \<in> set (events_since w (handlePlaylist E chatId info w))) =
     (downloadedFiles E chatId info w = []) \<and>
   (downloadedFiles E chatId info w = [] \<longrightarrow>
      (\<forall>e\<in>set (events_since w (handlePlaylist E chatId info w)).
          \<not> isDelivery e \<and> (\<forall>fls p ok. e \<noteq> ZipFiles fls p ok))) \<and>
   (downloadedFiles E chatId info w \<noteq> [] \<longrightarrow>
      (\<exists>ok. ZipFiles (downloadedFiles E chatId info w)
               (path_resolve (dirname E) (safeTitleOf E (title info) ''playlist'' @ ''.zip'')) ok
             \<in> set (events_since w (handlePlaylist E chatId info w))))"
proof -
  obtain fl' w0' where pv: "processVideo E d video (fl, w0) = (fl', w0')"
    by (cases "processVideo E d video (fl, w0)") auto
  from processVideo_skip_iff [OF pv] pv
  have a: "(fst (processVideo E d video (fl, w0)) = fl) =
     ((\<exists>e\<in>set (events_since w0 (snd (processVideo E d video (fl, w0)))). rejected e) \<or>
      (\<exists>vi rsn. ytdl_info E (videoUrl video) = Some vi \<and> select (formats vi) = NoneFound rsn))"
    by simp
  from processVideo_shape [OF pv] pv
  have b: "fst (processVideo E d video (fl, w0)) = fl \<or>
    (\<exists>x. fst (processVideo E d video (fl, w0)) = fl @ [x])"
    by auto
  have c: "processEntries E d (video # rest) (fl, w0) =
     processEntries E d rest (processVideo E d video (fl, w0))"
    by simp
  from a b c handlePlaylist_attempted [of w E chatId info]
    handlePlaylist_total_failure [of chatId w E info]
    handlePlaylist_nothing_sent [of E chatId info w]
    handlePlaylist_zip_attempted [of E chatId info w]
  show ?thesis by blast
qed

theorem batch_error_propagation_witness:
  "YtdlInfo ''https://www.youtube.com/watch?v=bad'' False
     \<in> set (events_since ex_world
          (handlePlaylist (ex_env 1000 True 5000 ex_catalog) 7 ex_playlist3 ex_world)) \<and>
   attempted (events_since ex_world
      (handlePlaylist (ex_env 1000 True 5000 ex_catalog) 7 ex_playlist3 ex_world)) =
     [''https://www.youtube.com/watch?v=one'', ''https://www.youtube.com/watch?v=bad'',
      ''https://www.youtube.com/watch?v=two''] \<and>
   length (downloadedFiles (ex_env 1000 True 5000 ex_catalog) 7 ex_playlist3 ex_world) = 2 \<and>
   SendMessage 7 MsgNoVideosDownloaded
     \<notin> set (events_since ex_world
          (handlePlaylist (ex_env 1000 True 5000 ex_catalog) 7 ex_playlist3 ex_world)) \<and>
   SendDocument 7 ''/app/mix.zip''
     \<in> set (events_since ex_world
          (handlePlaylist (ex_env 1000 True 5000 ex_catalog) 7 ex_playlist3 ex_world)) \<and>
   downloadedFiles (ex_env 1000 True 5000 (\<lambda>u. None)) 7 ex_playlist3 ex_world = [] \<and>
   SendMessage 7 MsgNoVideosDownloaded
     \<in> set (events_since ex_world
          (handlePlaylist (ex_env 1000 True 5000 (\<lambda>u. None)) 7 ex_playlist3 ex_world)) \<and>
   fst (processVideo (ex_env 1000 True 5000 ex_catalog) ''/tmp/x'' (ex_entry ''bad'') ([], ex_world)) = []"
proof -
  let ?E = "ex_env 1000 True 5000 ex_catalog"
  let ?N = "ex_env 1000 True 5000 (\<lambda>u. None)"
  have bad: "YtdlInfo ''https://www.youtube.com/watch?v=bad'' False
     \<in> set (events_since ex_world (handlePlaylist ?E 7 ex_playlist3 ex_world))"
    by (simp add: run_defs select_defs ex_defs)
  have dl: "length (downloadedFiles ?E 7 ex_playlist3 ex_world) = 2"
    by (simp add: run_defs select_defs ex_defs)
  have sent: "SendDocument 7 ''/app/mix.zip''
     \<in> set (events_since ex_world (handlePlaylist ?E 7 ex_playlist3 ex_world))"
    by (simp add: run_defs select_defs ex_defs)
  have none: "downloadedFiles ?N 7 ex_playlist3 ex_world = []"
    by (simp add: run_defs select_defs ex_defs)
  have urls: "map videoUrl (take MAX_PLAYLIST_VIDEOS (entries ex_playlist3)) =
     [''https://www.youtube.com/watch?v=one'', ''https://www.youtube.com/watch?v=bad'',
      ''https://www.youtube.com/watch?v=two'']"
    by (simp add: run_defs ex_defs)
  have rej: "\<exists>e\<in>set (events_since ex_world
      (snd (processVideo ?E ''/tmp/x'' (ex_entry ''bad'') ([], ex_world)))). rejected e"
    by (simp add: run_defs select_defs ex_defs)
  from dl have ne: "downloadedFiles ?E 7 ex_playlist3 ex_world \<noteq> []"
    by auto
  from batch_error_propagation
    [of ?E "''/tmp/x''" "ex_entry ''bad''" "[]" "[]" ex_world ex_world 7 ex_playlist3]
    batch_error_propagation
    [of ?N "''/tmp/x''" "ex_entry ''bad''" "[]" "[]" ex_world ex_world 7 ex_playlist3]
    bad dl sent none urls rej ne
  show ?thesis by simp
qed

text \<open>
  Claim C7: the metadata calls of a playlist run are those of the first
  \<open>MAX_PLAYLIST_VIDEOS\<close> entries, in catalog order and nothing else; for a playlist longer
  than the cap there are exactly \<open>MAX_PLAYLIST_VIDEOS\<close> = 10 attempts. The witness has 15
  entries and 10 attempts.
\<close>

theorem batch_cap:
  "attempted (events_since w (handlePlaylist E chatId info w)) =
     map videoUrl (take MAX_PLAYLIST_VIDEOS (entries info)) \<and>
   (MAX_PLAYLIST_VIDEOS < length (entries info) \<longrightarrow>
      length (attempted (events_since w (handlePlaylist E chatId info w))) = MAX_PLAYLIST_VIDEOS) \<and>
   MAX_PLAYLIST_VIDEOS = 10"
  by (simp add: handlePlaylist_attempted MAX_PLAYLIST_VIDEOS_def)

theorem batch_cap_witness:
  "MAX_PLAYLIST_VIDEOS < length (entries ex_playlist15) \<and>
   length (entries ex_playlist15) = 15 \<and>
   length (attempted (events_since ex_world
      (handlePlaylist (ex_env 1000 True 5000 ex_catalog) 7 ex_playlist15 ex_world))) = 10 \<and>
   attempted (events_since ex_world
      (handlePlaylist (ex_env 1000 True 5000 ex_catalog) 7 ex_playlist15 ex_world)) =
     [''https://www.youtube.com/watch?v=a'', ''https://www.youtube.com/watch?v=b'',
      ''https://www.youtube.com/watch?v=c'', ''https://www.youtube.com/watch?v=d'',
      ''https://www.youtube.com/watch?v=e'', ''https://www.youtube.com/watch?v=f'',
      ''https://www.youtube.com/watch?v=g'', ''https://www.youtube.com/watch?v=h'',
      ''https://www.youtube.com/watch?v=i'', ''https://www.youtube.com/watch?v=j'']"
proof -
  have h: "MAX_PLAYLIST_VIDEOS < length (entries ex_playlist15)"
    by (simp add: MAX_PLAYLIST_VIDEOS_def ex_playlist15_def)
  have m: "map videoUrl (take MAX_PLAYLIST_VIDEOS (entries ex_playlist15)) =
     [''https://www.youtube.com/watch?v=a'', ''https://www.youtube.com/watch?v=b'',
      ''https://www.youtube.com/watch?v=c'', ''https://www.youtube.com/watch?v=d'',
      ''https://www.youtube.com/watch?v=e'', ''https://www.youtube.com/watch?v=f'',
      ''https://www.youtube.com/watch?v=g'', ''https://www.youtube.com/watch?v=h'',
      ''https://www.youtube.com/watch?v=i'', ''https://www.youtube.com/watch?v=j'']"
    by (simp add: MAX_PLAYLIST_VIDEOS_def ex_playlist15_def ex_entry_def videoUrl_def showOpt_def)
  from batch_cap [of ex_world "ex_env 1000 True 5000 ex_catalog" 7 ex_playlist15] h m
  show ?thesis by (simp add: ex_playlist15_def)
qed



section \<open>Properties of the output paths\<close>







end
